theory Spec2Isabelle
  imports Complex_Main "HOL-Library.Sublist" "HOL-Library.Char_ord" "HOL-Library.List_Lexorder"
begin

section \<open>Data model\<close>

text \<open>
  One row of the training log (\<^verbatim>\<open>TrainingLogData\<close>).  The numeric columns hold finite
  numbers and are modelled by the reals they denote; \<^verbatim>\<open>epoch\<close> is an integer
  (\<^verbatim>\<open>parseInt(...) || 0\<close> at ingestion), possibly negative.
\<close>

record TrainingLogData =
  index :: string
  name :: string
  metric :: string
  estimate :: real
  target :: real
  error :: real
  abs_error :: real
  rel_abs_error :: real
  validation :: bool
  epoch :: int

text \<open>
  A computed JavaScript number: the outcome of a division or of \<^verbatim>\<open>parseFloat\<close> may be
  \<^verbatim>\<open>NaN\<close> or an infinity.  What \<^verbatim>\<open>parseInt\<close> and \<^verbatim>\<open>parseFloat\<close> read is rounded to
  double precision (\<open>to_double\<close> below); the sums, differences and means of record
  values are taken exactly, and the sign of zero is not modelled.
\<close>

datatype jsnum = NaN | NegInf | Num real | PosInf

fun js_neg :: "jsnum \<Rightarrow> jsnum" where
  "js_neg NaN = NaN"
| "js_neg NegInf = PosInf"
| "js_neg PosInf = NegInf"
| "js_neg (Num a) = Num (- a)"

fun js_add :: "jsnum \<Rightarrow> jsnum \<Rightarrow> jsnum" where
  "js_add NaN _ = NaN"
| "js_add _ NaN = NaN"
| "js_add PosInf NegInf = NaN"
| "js_add NegInf PosInf = NaN"
| "js_add PosInf _ = PosInf"
| "js_add _ PosInf = PosInf"
| "js_add NegInf _ = NegInf"
| "js_add _ NegInf = NegInf"
| "js_add (Num a) (Num b) = Num (a + b)"

definition js_sub :: "jsnum \<Rightarrow> jsnum \<Rightarrow> jsnum" where
  "js_sub a b = js_add a (js_neg b)"

text \<open>Division of a number by an array length (a non-negative integer).\<close>

fun js_div_len :: "jsnum \<Rightarrow> nat \<Rightarrow> jsnum" where
  "js_div_len NaN n = NaN"
| "js_div_len PosInf n = PosInf"
| "js_div_len NegInf n = NegInf"
| "js_div_len (Num a) n =
     (if n = 0 then (if a = 0 then NaN else if 0 < a then PosInf else NegInf)
      else Num (a / real n))"

text \<open>\<^verbatim>\<open>v > 0\<close> on a computed number; every comparison with \<^verbatim>\<open>NaN\<close> is false.\<close>

fun js_pos :: "jsnum \<Rightarrow> bool" where
  "js_pos PosInf = True"
| "js_pos (Num a) = (0 < a)"
| "js_pos _ = False"

text \<open>\<^verbatim>\<open>a < b\<close> on computed numbers.\<close>

fun js_less :: "jsnum \<Rightarrow> jsnum \<Rightarrow> bool" where
  "js_less NaN _ = False"
| "js_less _ NaN = False"
| "js_less (Num a) (Num b) = (a < b)"
| "js_less NegInf NegInf = False"
| "js_less NegInf _ = True"
| "js_less _ NegInf = False"
| "js_less PosInf _ = False"
| "js_less _ PosInf = True"

text \<open>
  \<^verbatim>\<open>Array.prototype.sort(cmp)\<close>: a stable sort; an element moves behind another only
  when the comparator returns a positive number (a \<^verbatim>\<open>NaN\<close> result counts as \<^verbatim>\<open>+0\<close>).
  Where the comparator is not consistent (a \<^verbatim>\<open>NaN\<close> among the keys) the language leaves
  the order to the implementation; the model is an insertion sort.
\<close>

fun insort_by :: "('a \<Rightarrow> 'a \<Rightarrow> jsnum) \<Rightarrow> 'a \<Rightarrow> 'a list \<Rightarrow> 'a list" where
  "insort_by cmp x [] = [x]"
| "insort_by cmp x (y # ys) =
     (if js_pos (cmp x y) then y # insort_by cmp x ys else x # y # ys)"

definition sort_by :: "('a \<Rightarrow> 'a \<Rightarrow> jsnum) \<Rightarrow> 'a list \<Rightarrow> 'a list" where
  "sort_by cmp xs = foldr (insort_by cmp) xs []"

text \<open>\<^verbatim>\<open>Array.from(new Set(xs))\<close>: the distinct elements in order of first occurrence.\<close>

definition uniq :: "'a list \<Rightarrow> 'a list" where
  "uniq xs = rev (remdups (rev xs))"

text \<open>\<^verbatim>\<open>xs.filter((x, index) => p(index, x))\<close>, the index counted from \<open>i\<close>.\<close>

fun filter_index :: "(nat \<Rightarrow> 'a \<Rightarrow> bool) \<Rightarrow> nat \<Rightarrow> 'a list \<Rightarrow> 'a list" where
  "filter_index p i [] = []"
| "filter_index p i (x # xs) =
     (if p i x then x # filter_index p (Suc i) xs else filter_index p (Suc i) xs)"

text \<open>
  The Number value for a real: the nearest double (53 significant bits, exponents of the
  last place from \<open>-1074\<close> to \<open>971\<close>), a tie going to the even neighbour, and an
  infinity when the rounded magnitude reaches \<open>2 ^ 1024\<close>.  \<open>binary_exponent a n\<close> is the
  largest \<open>e\<close> with \<open>- 1074 < e \<le> int n - 1074\<close> and \<open>2 ^ e \<le> a\<close>, or \<open>- 1074\<close> when there
  is none.  The sign of zero is not modelled.
\<close>

definition pow2 :: "int \<Rightarrow> real" where
  "pow2 e = (if 0 \<le> e then 2 ^ nat e else 1 / 2 ^ nat (- e))"

fun binary_exponent :: "real \<Rightarrow> nat \<Rightarrow> int" where
  "binary_exponent a 0 = - 1074"
| "binary_exponent a (Suc n) =
     (if pow2 (int n - 1073) \<le> a then int n - 1073 else binary_exponent a n)"

definition round_half_even :: "real \<Rightarrow> int" where
  "round_half_even q =
     (let f = \<lfloor>q\<rfloor>; d = q - of_int f
      in if d < 1 / 2 then f else if 1 / 2 < d then f + 1 else if even f then f else f + 1)"

definition to_double :: "real \<Rightarrow> jsnum" where
  "to_double x =
     (let e = binary_exponent \<bar>x\<bar> 2098;
          u = pow2 (max (e - 52) (- 1074));
          r = of_int (round_half_even (x / u)) * u
      in if 2 ^ 1024 \<le> \<bar>r\<bar> then (if 0 < x then PosInf else NegInf) else Num r)"

section \<open>Epoch selector\<close>

text \<open>
  The same five lines open every component (MetricsSummary, Charts, LineChart, IncomeBands,
  LocalAreas):
  \<^verbatim>\<open>maxEpoch = data.reduce((max, item) => Math.max(max, item.epoch), 0)\<close>,
  \<^verbatim>\<open>allEpochs = Array.from(new Set(data.map(item => item.epoch))).sort((a, b) => a - b)\<close>,
  \<^verbatim>\<open>epochStep = Math.max(1, Math.floor(allEpochs.length / 100))\<close>,
  \<^verbatim>\<open>selectedEpochs = allEpochs.filter((_, index) => index % epochStep === 0 || allEpochs[index] === maxEpoch)\<close>.
\<close>

definition maxEpoch :: "TrainingLogData list \<Rightarrow> int" where
  "maxEpoch data = foldl (\<lambda>mx item. max mx (epoch item)) 0 data"

definition allEpochs :: "TrainingLogData list \<Rightarrow> int list" where
  "allEpochs data = sort (uniq (map epoch data))"

definition epochStep :: "TrainingLogData list \<Rightarrow> nat" where
  "epochStep data = max 1 (length (allEpochs data) div 100)"

definition selectedEpochs :: "TrainingLogData list \<Rightarrow> int list" where
  "selectedEpochs data =
     filter_index (\<lambda>index e. index mod epochStep data = 0 \<or> e = maxEpoch data) 0 (allEpochs data)"

definition filteredData :: "TrainingLogData list \<Rightarrow> TrainingLogData list" where
  "filteredData data = filter (\<lambda>item. epoch item \<in> set (selectedEpochs data)) data"

definition latestData :: "TrainingLogData list \<Rightarrow> TrainingLogData list" where
  "latestData data = filter (\<lambda>item. epoch item = maxEpoch data) (filteredData data)"

section \<open>Quality classifier and summary (MetricsSummary)\<close>

text \<open>The three filter predicates of the quality breakdown.\<close>

definition isExcellent :: "real \<Rightarrow> bool" where
  "isExcellent e = (e < 0.05)"

definition isGood :: "real \<Rightarrow> bool" where
  "isGood e = (e \<ge> 0.05 \<and> e < 0.20)"

definition isPoor :: "real \<Rightarrow> bool" where
  "isPoor e = (e \<ge> 0.20)"

record Summary =
  totalEntries :: nat
  avgRelAbsError :: jsnum
  uniqueMetrics :: nat
  uniqueEpochs :: nat
  excellentCount :: nat
  goodCount :: nat
  poorCount :: nat
  qualityScore :: jsnum

text \<open>
  The values MetricsSummary renders; \<open>None\<close> is the early return "No data available".
  The formatting by \<^verbatim>\<open>toFixed\<close> is left out.
\<close>

definition MetricsSummary :: "TrainingLogData list \<Rightarrow> Summary option" where
  "MetricsSummary data =
     (if length data = 0 then None
      else
        let latest = latestData data;
            total = length latest;
            excellent = length (filter (\<lambda>item. isExcellent (rel_abs_error item)) latest);
            good = length (filter (\<lambda>item. isGood (rel_abs_error item)) latest);
            poor = length (filter (\<lambda>item. isPoor (rel_abs_error item)) latest)
        in Some \<lparr> totalEntries = total,
                  avgRelAbsError =
                    js_div_len (Num (foldl (\<lambda>sum item. sum + rel_abs_error item) 0 latest)) total,
                  uniqueMetrics = length (uniq (map metric (filteredData data))),
                  uniqueEpochs = length (selectedEpochs data),
                  excellentCount = excellent,
                  goodCount = good,
                  poorCount = poor,
                  qualityScore = js_div_len (Num (real (excellent * 100 + good * 75))) total \<rparr>)"

section \<open>Strings and numeric parsing\<close>

text \<open>
  Strings are lists of 8-bit code units.  \<open>is_digit\<close> is the regular expression class
  \<^verbatim>\<open>\d\<close>; \<open>line_terminator\<close> is what \<^verbatim>\<open>.\<close> does not match; \<open>white_space\<close> is what
  \<^verbatim>\<open>parseInt\<close> and \<^verbatim>\<open>parseFloat\<close> skip at the start of their argument.
\<close>

definition is_digit :: "char \<Rightarrow> bool" where
  "is_digit c = (c \<in> set ''0123456789'')"

definition digit_val :: "char \<Rightarrow> nat" where
  "digit_val c = of_char c - 48"

definition dec_val :: "string \<Rightarrow> nat" where
  "dec_val ds = foldl (\<lambda>v c. 10 * v + digit_val c) 0 ds"

definition is_hex_digit :: "char \<Rightarrow> bool" where
  "is_hex_digit c = (c \<in> set ''0123456789abcdefABCDEF'')"

definition hex_digit_val :: "char \<Rightarrow> nat" where
  "hex_digit_val c =
     (if is_digit c then of_char c - 48
      else if c \<in> set ''abcdef'' then of_char c - 87
      else of_char c - 55)"

definition hex_val :: "string \<Rightarrow> nat" where
  "hex_val ds = foldl (\<lambda>v c. 16 * v + hex_digit_val c) 0 ds"

definition line_terminator :: "char \<Rightarrow> bool" where
  "line_terminator c = (c = CHR 0x0A \<or> c = CHR 0x0D)"

definition white_space :: "char \<Rightarrow> bool" where
  "white_space c = (c \<in> set [CHR 0x09, CHR 0x0A, CHR 0x0B, CHR 0x0C, CHR 0x0D, CHR 0x20, CHR 0xA0])"

text \<open>\<^verbatim>\<open>s.includes(sub)\<close>\<close>

fun str_includes :: "string \<Rightarrow> string \<Rightarrow> bool" where
  "str_includes [] sub = (sub = [])"
| "str_includes (c # cs) sub = (prefix sub (c # cs) \<or> str_includes cs sub)"

text \<open>
  \<^verbatim>\<open>s.split(sep)\<close>: the pieces between the successive occurrences of the separator,
  found from left to right; \<open>piece\<close> is the piece being read.
\<close>

fun split_from :: "string \<Rightarrow> string \<Rightarrow> string \<Rightarrow> string list" where
  "split_from sep piece [] = [piece]"
| "split_from sep piece (c # cs) =
     (if sep \<noteq> [] \<and> prefix sep (c # cs)
      then piece # split_from sep [] (drop (length sep) (c # cs))
      else split_from sep (piece @ [c]) cs)"

definition str_split :: "string \<Rightarrow> string \<Rightarrow> string list" where
  "str_split sep s = (if sep = [] then map (\<lambda>c. [c]) s else split_from sep [] s)"

text \<open>\<^verbatim>\<open>s.replace(/_/g, '')\<close>\<close>

definition strip_underscores :: "string \<Rightarrow> string" where
  "strip_underscores s = filter (\<lambda>c. c \<noteq> CHR ''_'') s"

text \<open>
  \<^verbatim>\<open>parseInt(s)\<close> without a radix: leading white space is skipped, a sign is read, a
  prefix \<^verbatim>\<open>0x\<close> selects base 16, and the longest run of digits is the value, rounded
  to a double; no digit gives \<^verbatim>\<open>NaN\<close>.
\<close>

definition parseInt :: "string \<Rightarrow> jsnum" where
  "parseInt s =
     (let t = dropWhile white_space s;
          neg = prefix ''-'' t;
          u = (if prefix ''-'' t \<or> prefix ''+'' t then tl t else t);
          hex = (prefix ''0x'' u \<or> prefix ''0X'' u);
          ds = (if hex then takeWhile is_hex_digit (drop 2 u) else takeWhile is_digit u);
          v = (if hex then hex_val ds else dec_val ds)
      in if ds = [] then NaN else to_double (if neg then - real v else real v))"

text \<open>
  The exponent part of a decimal literal, \<^verbatim>\<open>[eE][+-]?\d+\<close>, at the start of a string:
  its value, or 0 when there is none.
\<close>

definition exponent_part :: "string \<Rightarrow> int" where
  "exponent_part s =
     (case s of
        [] \<Rightarrow> 0
      | e # r \<Rightarrow>
          if e = CHR ''e'' \<or> e = CHR ''E'' then
            (let neg = prefix ''-'' r;
                 ds = takeWhile is_digit (if prefix ''-'' r \<or> prefix ''+'' r then tl r else r)
             in if ds = [] then 0 else if neg then - int (dec_val ds) else int (dec_val ds))
          else 0)"

text \<open>
  \<^verbatim>\<open>parseFloat(s)\<close>: leading white space is skipped and the longest prefix that is a
  decimal literal (sign, \<^verbatim>\<open>Infinity\<close> or digits with an optional fraction and
  exponent) is the value, rounded to a double; no such prefix gives \<^verbatim>\<open>NaN\<close>.
\<close>

definition parseFloat :: "string \<Rightarrow> jsnum" where
  "parseFloat s =
     (let t = dropWhile white_space s;
          neg = prefix ''-'' t;
          u = (if prefix ''-'' t \<or> prefix ''+'' t then tl t else t)
      in if prefix ''Infinity'' u then (if neg then NegInf else PosInf)
         else
           let ip = takeWhile is_digit u;
               r1 = dropWhile is_digit u;
               fp = (if prefix ''.'' r1 then takeWhile is_digit (tl r1) else []);
               r2 = (if prefix ''.'' r1 then dropWhile is_digit (tl r1) else r1);
               m = real (dec_val ip) + real (dec_val fp) / 10 ^ length fp;
               ex = exponent_part r2;
               v = (if 0 \<le> ex then m * 10 ^ nat ex else m / 10 ^ nat (- ex))
           in if ip = [] \<and> fp = [] then NaN else to_double (if neg then - v else v))"

text \<open>
  A numeric column at ingestion (the page component): \<^verbatim>\<open>parseFloat(values[k]) || 0\<close>;
  a failed parse gives 0, any other value is kept, negative ones included.
\<close>

definition numberField :: "string \<Rightarrow> jsnum" where
  "numberField s = (case parseFloat s of NaN \<Rightarrow> Num 0 | v \<Rightarrow> v)"

section \<open>Metric identifier parser (IncomeBands)\<close>

datatype error = TypeError

record IncomeBand =
  bandNumber :: jsnum
  range_str :: string
  lowerBound :: jsnum
  upperBound :: "jsnum option"

text \<open>
  \<^verbatim>\<open>/income_band_(\d+)_(.+)/\<close> tried at the start of a string: the literal, then the
  longest run of digits (a shorter run is followed by a digit, never by the underscore),
  an underscore, and every character up to the next line terminator, at least one.
  The result is the pair of the two groups.
\<close>

definition bandMatchAt :: "string \<Rightarrow> (string \<times> string) option" where
  "bandMatchAt s =
     (if prefix ''income_band_'' s then
        (let t = drop 12 s;
             ds = takeWhile is_digit t;
             r = dropWhile is_digit t;
             g = takeWhile (\<lambda>c. \<not> line_terminator c) (tl r)
         in if ds \<noteq> [] \<and> prefix ''_'' r \<and> g \<noteq> [] then Some (ds, g) else None)
      else None)"

text \<open>\<^verbatim>\<open>s.match(/income_band_(\d+)_(.+)/)\<close>: the leftmost position where it matches.\<close>

fun bandMatch :: "string \<Rightarrow> (string \<times> string) option" where
  "bandMatch [] = None"
| "bandMatch (c # cs) =
     (case bandMatchAt (c # cs) of Some m \<Rightarrow> Some m | None \<Rightarrow> bandMatch cs)"

text \<open>
  \<open>parseBand\<close>.  \<open>Inr None\<close> is the \<^verbatim>\<open>null\<close> it returns when the pattern is absent.
  When the range has no \<^verbatim>\<open>_to_\<close>, the destructuring leaves \<^verbatim>\<open>upperStr\<close> undefined, the
  test \<^verbatim>\<open>upperStr === 'inf'\<close> is false and \<^verbatim>\<open>upperStr.replace\<close> throws a TypeError.
  The field \<^verbatim>\<open>displayRange\<close>, formatted by the locale, is left out.
\<close>

definition parseBand :: "string \<Rightarrow> error + IncomeBand option" where
  "parseBand bandString =
     (case bandMatch bandString of
        None \<Rightarrow> Inr None
      | Some (m1, m2) \<Rightarrow>
          (case str_split ''_to_'' m2 of
             [] \<Rightarrow> Inl TypeError
           | [lowerStr] \<Rightarrow> Inl TypeError
           | lowerStr # upperStr # _ \<Rightarrow>
               Inr (Some \<lparr> bandNumber = parseInt m1,
                           range_str = m2,
                           lowerBound = parseFloat (strip_underscores lowerStr),
                           upperBound = (if upperStr = ''inf'' then None
                                         else Some (parseFloat (strip_underscores upperStr))) \<rparr>)))"

text \<open>
  \<^verbatim>\<open>metricPart.match(/^(.+?)_(?:count_)?income_band_/)\<close>, group 1: the shortest
  non-empty prefix, free of line terminators, that is followed by \<^verbatim>\<open>_income_band_\<close> or
  \<^verbatim>\<open>_count_income_band_\<close>; \<open>taken\<close> is the prefix read so far.
\<close>

fun sourceMatch :: "string \<Rightarrow> string \<Rightarrow> string option" where
  "sourceMatch taken [] = None"
| "sourceMatch taken (c # cs) =
     (if line_terminator c then None
      else if prefix ''_income_band_'' cs \<or> prefix ''_count_income_band_'' cs
      then Some (taken @ [c])
      else sourceMatch (taken @ [c]) cs)"

text \<open>The body of the loop that collects the income sources, for one metric.\<close>

definition extractSource :: "string \<Rightarrow> string option" where
  "extractSource m =
     (if str_includes m ''income_band_'' then
        (let parts = str_split ''/'' m
         in if length parts \<ge> 2 then sourceMatch [] (parts ! 1) else None)
      else None)"

definition incomeSources :: "TrainingLogData list \<Rightarrow> string list" where
  "incomeSources data = sort (uniq (List.map_filter extractSource (map metric (latestData data))))"

section \<open>Band aggregator (IncomeBands)\<close>

datatype metric_type = amount | count

record IncomeBandData =
  band :: IncomeBand
  band_estimate :: real
  band_target :: real
  band_error :: real
  band_rel_abs_error :: real

definition bandPrefix :: "string \<Rightarrow> metric_type \<Rightarrow> string" where
  "bandPrefix selectedSource metricType =
     (if metricType = amount then ''hmrc/'' @ selectedSource @ ''_income_band_''
      else ''hmrc/'' @ selectedSource @ ''_count_income_band_'')"

text \<open>The \<^verbatim>\<open>forEach\<close> that pushes the parsed bands; an exception of \<open>parseBand\<close> ends it.\<close>

fun pushBands :: "IncomeBandData list \<Rightarrow> TrainingLogData list \<Rightarrow> error + IncomeBandData list" where
  "pushBands bands [] = Inr bands"
| "pushBands bands (item # items) =
     (case parseBand (metric item) of
        Inl e \<Rightarrow> Inl e
      | Inr None \<Rightarrow> pushBands bands items
      | Inr (Some b) \<Rightarrow>
          if bandNumber b \<noteq> Num 55
          then pushBands (bands @ [\<lparr> band = b, band_estimate = estimate item,
                                     band_target = target item, band_error = error item,
                                     band_rel_abs_error = rel_abs_error item \<rparr>]) items
          else pushBands bands items)"

definition bandsData ::
  "TrainingLogData list \<Rightarrow> string \<Rightarrow> metric_type \<Rightarrow> error + IncomeBandData list" where
  "bandsData data selectedSource metricType =
     (if selectedSource = [] then Inr []
      else
        let bandMetrics = filter (\<lambda>item. prefix (bandPrefix selectedSource metricType) (metric item))
                            (latestData data)
        in case pushBands [] bandMetrics of
             Inl e \<Rightarrow> Inl e
           | Inr bands \<Rightarrow>
               Inr (sort_by (\<lambda>a b. js_sub (lowerBound (band a)) (lowerBound (band b))) bands))"

section \<open>Geographic aggregator (LocalAreas)\<close>

record CategoryBand =
  cat_metric :: string
  cat_label :: string
  cat_range :: string

definition ageBands :: "CategoryBand list" where
  "ageBands =
     [\<lparr> cat_metric = ''age/0_10'', cat_label = ''0-10 years'', cat_range = ''0-10'' \<rparr>,
      \<lparr> cat_metric = ''age/10_20'', cat_label = ''10-20 years'', cat_range = ''10-20'' \<rparr>,
      \<lparr> cat_metric = ''age/20_30'', cat_label = ''20-30 years'', cat_range = ''20-30'' \<rparr>,
      \<lparr> cat_metric = ''age/30_40'', cat_label = ''30-40 years'', cat_range = ''30-40'' \<rparr>,
      \<lparr> cat_metric = ''age/40_50'', cat_label = ''40-50 years'', cat_range = ''40-50'' \<rparr>,
      \<lparr> cat_metric = ''age/50_60'', cat_label = ''50-60 years'', cat_range = ''50-60'' \<rparr>,
      \<lparr> cat_metric = ''age/60_70'', cat_label = ''60-70 years'', cat_range = ''60-70'' \<rparr>,
      \<lparr> cat_metric = ''age/70_80'', cat_label = ''70-80 years'', cat_range = ''70-80'' \<rparr>]"

text \<open>The pound sign of the labels is the code unit \<open>0xA3\<close>.\<close>

definition employmentBands :: "CategoryBand list" where
  "employmentBands =
     [\<lparr> cat_metric = ''hmrc/employment_income/amount/20000_30000'',
        cat_label = CHR 0xA3 # ''20K-'' @ CHR 0xA3 # ''30K'', cat_range = ''20000-30000'' \<rparr>,
      \<lparr> cat_metric = ''hmrc/employment_income/amount/30000_40000'',
        cat_label = CHR 0xA3 # ''30K-'' @ CHR 0xA3 # ''40K'', cat_range = ''30000-40000'' \<rparr>,
      \<lparr> cat_metric = ''hmrc/employment_income/amount/40000_50000'',
        cat_label = CHR 0xA3 # ''40K-'' @ CHR 0xA3 # ''50K'', cat_range = ''40000-50000'' \<rparr>,
      \<lparr> cat_metric = ''hmrc/employment_income/amount/50000_70000'',
        cat_label = CHR 0xA3 # ''50K-'' @ CHR 0xA3 # ''70K'', cat_range = ''50000-70000'' \<rparr>,
      \<lparr> cat_metric = ''hmrc/employment_income/amount/70000_100000'',
        cat_label = CHR 0xA3 # ''70K-'' @ CHR 0xA3 # ''100K'', cat_range = ''70000-100000'' \<rparr>,
      \<lparr> cat_metric = ''hmrc/employment_income/amount/100000_150000'',
        cat_label = CHR 0xA3 # ''100K-'' @ CHR 0xA3 # ''150K'', cat_range = ''100000-150000'' \<rparr>]"

datatype analysis_type = age | employment

record DataPoint =
  category :: string
  point_estimate :: real
  point_target :: real
  point_error :: real
  point_rel_abs_error :: real

record LocalAreaData =
  constituency :: string
  dataPoints :: "DataPoint list"
  totalError :: real
  avgRelError :: jsnum

text \<open>
  One point per band of the catalogue: the first record of the constituency with exactly
  the band's metric (\<^verbatim>\<open>find\<close>), each field \<^verbatim>\<open>item?.field || 0\<close>, that is 0 when no
  record is found.
\<close>

definition bandPoint :: "TrainingLogData list \<Rightarrow> CategoryBand \<Rightarrow> DataPoint" where
  "bandPoint constituencyData b =
     (let item = find (\<lambda>d. metric d = cat_metric b) constituencyData
      in \<lparr> category = cat_label b,
           point_estimate = (case item of None \<Rightarrow> 0 | Some i \<Rightarrow> estimate i),
           point_target = (case item of None \<Rightarrow> 0 | Some i \<Rightarrow> target i),
           point_error = (case item of None \<Rightarrow> 0 | Some i \<Rightarrow> error i),
           point_rel_abs_error = (case item of None \<Rightarrow> 0 | Some i \<Rightarrow> rel_abs_error i) \<rparr>)"

definition getLocalAreaData ::
  "TrainingLogData list \<Rightarrow> analysis_type \<Rightarrow> string \<Rightarrow> LocalAreaData" where
  "getLocalAreaData latest analysisType c =
     (let constituencyData = filter (\<lambda>item. name item = c) latest;
          bands = (if analysisType = age then ageBands else employmentBands);
          points = filter (\<lambda>point. point_target point > 0) (map (bandPoint constituencyData) bands)
      in \<lparr> constituency = c,
           dataPoints = points,
           totalError = foldl (\<lambda>sum point. sum + \<bar>point_error point\<bar>) 0 points,
           avgRelError =
             (if length points > 0
              then js_div_len (Num (foldl (\<lambda>sum point. sum + point_rel_abs_error point) 0 points))
                     (length points)
              else Num 0) \<rparr>)"

definition constituencies :: "TrainingLogData list \<Rightarrow> string list" where
  "constituencies data = sort (uniq (map name (latestData data)))"

text \<open>The areas with at least one point, in ascending order of their mean (\<^verbatim>\<open>sorted\<close>).\<close>

definition sortedAreas :: "TrainingLogData list \<Rightarrow> analysis_type \<Rightarrow> LocalAreaData list" where
  "sortedAreas data analysisType =
     (let allAreas = map (getLocalAreaData (latestData data) analysisType) (constituencies data)
      in sort_by (\<lambda>a b. js_sub (avgRelError a) (avgRelError b))
           (filter (\<lambda>area. length (dataPoints area) > 0) allAreas))"

record Overview =
  best :: "LocalAreaData list"
  worst :: "LocalAreaData list"
  average :: jsnum

text \<open>\<^verbatim>\<open>slice(0, 5)\<close> is \<open>take 5\<close>; \<^verbatim>\<open>slice(-5)\<close> drops all but the last five.\<close>

definition overviewData :: "TrainingLogData list \<Rightarrow> analysis_type \<Rightarrow> Overview" where
  "overviewData data analysisType =
     (let areas = sortedAreas data analysisType
      in \<lparr> best = take 5 areas,
           worst = rev (drop (length areas - 5) areas),
           average = js_div_len (foldl (\<lambda>sum area. js_add sum (avgRelError area)) (Num 0) areas)
                       (length areas) \<rparr>)"

section \<open>The format of a banded metric\<close>








section \<open>Example data\<close>

text \<open>An example row at a given epoch, for concrete tables.\<close>

definition mkRow :: "int \<Rightarrow> TrainingLogData" where
  "mkRow e = \<lparr> index = ''0'', name = ''UK'', metric = ''age/0_10'', estimate = 0, target = 0,
     error = 0, abs_error = 0, rel_abs_error = 0, validation = False, epoch = e \<rparr>"

definition areaRow :: "string \<Rightarrow> string \<Rightarrow> real \<Rightarrow> real \<Rightarrow> TrainingLogData" where
  "areaRow c m t e = \<lparr> index = ''0'', name = c, metric = m, estimate = t, target = t,
     error = 0, abs_error = 0, rel_abs_error = e, validation = False, epoch = 5 \<rparr>"

definition exampleAreas :: "TrainingLogData list" where
  "exampleAreas = [areaRow ''A'' ''age/0_10'' 100 0.1, areaRow ''B'' ''age/0_10'' 0 9,
                   areaRow ''A'' ''age/10_20'' 50 0.3]"

definition bandRow :: "string \<Rightarrow> TrainingLogData" where
  "bandRow m = \<lparr> index = ''0'', name = ''UK'', metric = m, estimate = 90, target = 100,
     error = - 10, abs_error = 10, rel_abs_error = 0.1, validation = False, epoch = 5 \<rparr>"

definition malformedBands :: "TrainingLogData list" where
  "malformedBands = [bandRow ''hmrc/pension_income_band_1_5_000_to_10_000'',
                     bandRow ''hmrc/pension_income_band_2_unknown_to_inf'',
                     bandRow ''hmrc/pension_income_band_3_0_to_5_000'']"

section \<open>Properties of the epoch selector\<close>

lemma foldl_max_ge_init: "a \<le> foldl (\<lambda>mx item. max mx (epoch item)) a xs"
proof (induction xs arbitrary: a)
  case Nil show ?case by simp
next
  case (Cons x xs)
  have "a \<le> max a (epoch x)" by simp
  also have "\<dots> \<le> foldl (\<lambda>mx item. max mx (epoch item)) (max a (epoch x)) xs" by (rule Cons.IH)
  finally show ?case by simp
qed

lemma foldl_max_ge_elem:
  "r \<in> set xs \<Longrightarrow> epoch r \<le> foldl (\<lambda>mx item. max mx (epoch item)) a xs"
proof (induction xs arbitrary: a)
  case Nil then show ?case by simp
next
  case (Cons x xs)
  show ?case
  proof (cases "r = x")
    case True
    have "epoch x \<le> max a (epoch x)" by simp
    also have "\<dots> \<le> foldl (\<lambda>mx item. max mx (epoch item)) (max a (epoch x)) xs"
      by (rule foldl_max_ge_init)
    finally show ?thesis using True by simp
  next
    case False
    with Cons.prems have "r \<in> set xs" by simp
    then show ?thesis using Cons.IH by simp
  qed
qed

lemma foldl_max_cases:
  "foldl (\<lambda>mx item. max mx (epoch item)) a xs = a
   \<or> foldl (\<lambda>mx item. max mx (epoch item)) a xs \<in> epoch ` set xs"
proof (induction xs arbitrary: a)
  case Nil show ?case by simp
next
  case (Cons x xs)
  from Cons.IH [of "max a (epoch x)"] show ?case
    by (auto simp: max_def split: if_splits)
qed

lemma maxEpoch_ge: "r \<in> set data \<Longrightarrow> epoch r \<le> maxEpoch data"
  unfolding maxEpoch_def by (rule foldl_max_ge_elem)

lemma maxEpoch_attained:
  assumes "data \<noteq> []" and "\<forall>r\<in>set data. 0 \<le> epoch r"
  shows "maxEpoch data \<in> epoch ` set data"
proof -
  from foldl_max_cases [of 0 data]
  consider "maxEpoch data = 0" | "maxEpoch data \<in> epoch ` set data"
    unfolding maxEpoch_def by blast
  then show ?thesis
  proof cases
    case 1
    from assms(1) obtain r where r: "r \<in> set data" by (cases data) auto
    with maxEpoch_ge have "epoch r \<le> 0" using 1 by metis
    moreover from r assms(2) have "0 \<le> epoch r" by blast
    ultimately have "epoch r = maxEpoch data" using 1 by simp
    with r show ?thesis by force
  next
    case 2 then show ?thesis .
  qed
qed

lemma maxEpoch_eq_Max:
  assumes "data \<noteq> []" and "\<forall>r\<in>set data. 0 \<le> epoch r"
  shows "maxEpoch data = Max (epoch ` set data)"
proof (rule sym, rule Max_eqI)
  show "finite (epoch ` set data)" by simp
  show "\<And>y. y \<in> epoch ` set data \<Longrightarrow> y \<le> maxEpoch data" using maxEpoch_ge by auto
  show "maxEpoch data \<in> epoch ` set data" using assms by (rule maxEpoch_attained)
qed

lemma set_uniq: "set (uniq xs) = set xs"
  by (simp add: uniq_def)

lemma distinct_uniq: "distinct (uniq xs)"
  by (simp add: uniq_def)

lemma set_allEpochs: "set (allEpochs data) = epoch ` set data"
  by (simp add: allEpochs_def set_uniq)

lemma filter_index_keeps:
  "x \<in> set xs \<Longrightarrow> (\<And>i. p i x) \<Longrightarrow> x \<in> set (filter_index p i xs)"
  by (induction xs arbitrary: i) auto

lemma set_filter_index_subset: "set (filter_index p i xs) \<subseteq> set xs"
  by (induction xs arbitrary: i) auto

lemma maxEpoch_selected:
  assumes "data \<noteq> []" and "\<forall>r\<in>set data. 0 \<le> epoch r"
  shows "maxEpoch data \<in> set (selectedEpochs data)"
  unfolding selectedEpochs_def
  by (rule filter_index_keeps) (use assms maxEpoch_attained set_allEpochs in auto)

lemma latestData_nonempty:
  assumes "data \<noteq> []" and "\<forall>r\<in>set data. 0 \<le> epoch r"
  shows "latestData data \<noteq> []"
proof -
  from maxEpoch_attained [OF assms] obtain r where r: "r \<in> set data" "epoch r = maxEpoch data"
    by auto
  with maxEpoch_selected [OF assms] have "r \<in> set (latestData data)"
    by (simp add: latestData_def filteredData_def)
  then show ?thesis by auto
qed

lemma latestData_single_epoch:
  assumes "\<forall>r\<in>set data. epoch r = e" and "0 \<le> e"
  shows "latestData data = data"
proof (cases "data = []")
  case True
  then show ?thesis by (simp add: latestData_def filteredData_def)
next
  case False
  from assms have nonneg: "\<forall>r\<in>set data. 0 \<le> epoch r" by simp
  from maxEpoch_attained [OF False nonneg] assms(1) have m: "maxEpoch data = e" by auto
  from maxEpoch_selected [OF False nonneg] m have "e \<in> set (selectedEpochs data)" by simp
  with assms(1) have "filteredData data = data" by (simp add: filteredData_def)
  with assms(1) m show ?thesis by (simp add: latestData_def)
qed

lemma epoch_mkRow: "map epoch (map mkRow es) = es"
  by (induction es) (simp_all add: mkRow_def)

lemma foldl_max_upto:
  "a \<le> j \<Longrightarrow> i \<le> j \<Longrightarrow> foldl (\<lambda>mx item. max mx (epoch item)) a (map mkRow [i..j]) = j"
proof (induction "nat (j - i)" arbitrary: i a)
  case 0
  then have "i = j" by simp
  then show ?case using 0 by (simp add: mkRow_def upto_rec1 [of j j])
next
  case (Suc n)
  then have lt: "i < j" by simp
  then have u: "[i..j] = i # [i + 1..j]" by (simp add: upto_rec1)
  have "foldl (\<lambda>mx item. max mx (epoch item)) (max a i) (map mkRow [i + 1..j]) = j"
    using Suc lt by (intro Suc.hyps(1)) auto
  then show ?case by (simp add: u mkRow_def)
qed

lemma allEpochs_upto: "allEpochs (map mkRow [i..j]) = [i..j]"
proof -
  have "map epoch (map mkRow [i..j]) = [i..j]" by (rule epoch_mkRow)
  then have "allEpochs (map mkRow [i..j]) = sort (uniq [i..j])"
    by (simp only: allEpochs_def)
  then show ?thesis by (simp add: uniq_def distinct_remdups_id)
qed

lemma every_other_of_250:
  "length (filter_index (\<lambda>index e. index mod 2 = 0 \<or> e = (250::int)) 0 [1..250]) = 126"
  by code_simp

text \<open>
  Claim C1 (at most 101 selected epochs for the cap of 100) fails on the code: the step is
  \<open>\<lfloor>n / 100\<rfloor>\<close>, rounded down, so a table with the 250 distinct epochs 1..250 gets
  step 2 and the selection keeps the 125 epochs at even indices plus the last one,
  126 epochs in all.
\<close>

theorem selectedEpochs_250_exceeds_cap:
  "epochStep (map mkRow [1..250]) = 2 \<and> length (selectedEpochs (map mkRow [1..250])) = 126"
proof -
  have m: "maxEpoch (map mkRow [1..250]) = 250"
    unfolding maxEpoch_def by (rule foldl_max_upto) simp_all
  have s: "epochStep (map mkRow [1..250]) = 2"
    by (simp add: epochStep_def allEpochs_upto)
  have "length (selectedEpochs (map mkRow [1..250])) = 126"
    unfolding selectedEpochs_def m s allEpochs_upto by (rule every_other_of_250)
  with s show ?thesis by simp
qed

text \<open>
  Claim C4: for every non-empty table whose epochs are all non-negative, the maximum
  epoch present in the table is the value \<open>maxEpoch\<close> computes and is a member of the
  selected epochs, whatever the step.
\<close>

theorem maxEpoch_in_selectedEpochs:
  assumes "data \<noteq> []" and "\<forall>r\<in>set data. 0 \<le> epoch r"
  shows "Max (epoch ` set data) = maxEpoch data \<and> Max (epoch ` set data) \<in> set (selectedEpochs data)"
  using maxEpoch_eq_Max [OF assms] maxEpoch_selected [OF assms] by simp

theorem maxEpoch_in_selectedEpochs_witness:
  "Max (epoch ` set [mkRow 3, mkRow 7, mkRow 5]) = maxEpoch [mkRow 3, mkRow 7, mkRow 5]
   \<and> Max (epoch ` set [mkRow 3, mkRow 7, mkRow 5]) \<in> set (selectedEpochs [mkRow 3, mkRow 7, mkRow 5])"
proof -
  have h1: "[mkRow 3, mkRow 7, mkRow 5] \<noteq> []" by simp
  have h2: "\<forall>r\<in>set [mkRow 3, mkRow 7, mkRow 5]. 0 \<le> epoch r" by (simp add: mkRow_def)
  show ?thesis by (rule maxEpoch_in_selectedEpochs [OF h1 h2])
qed

text \<open>
  Claim C9: for every non-empty table whose epochs are all non-negative, the records at
  the maximum epoch are not empty, so MetricsSummary divides by a non-zero entry count:
  the quality score and the average relative error are numbers.
\<close>

theorem latest_denominator_nonzero:
  assumes "data \<noteq> []" and "\<forall>r\<in>set data. 0 \<le> epoch r"
  shows "latestData data \<noteq> [] \<and>
         (\<exists>s. MetricsSummary data = Some s \<and> 0 < totalEntries s
              \<and> (\<exists>q. qualityScore s = Num q) \<and> (\<exists>a. avgRelAbsError s = Num a))"
proof -
  have ne: "latestData data \<noteq> []" using assms by (rule latestData_nonempty)
  then have "0 < length (latestData data)" by simp
  with assms(1) ne show ?thesis by (simp add: MetricsSummary_def Let_def)
qed

theorem latest_denominator_nonzero_witness:
  "latestData [mkRow 3, mkRow 7, mkRow 5] \<noteq> [] \<and>
   (\<exists>s. MetricsSummary [mkRow 3, mkRow 7, mkRow 5] = Some s \<and> 0 < totalEntries s
        \<and> (\<exists>q. qualityScore s = Num q) \<and> (\<exists>a. avgRelAbsError s = Num a))"
proof -
  have h1: "[mkRow 3, mkRow 7, mkRow 5] \<noteq> []" by simp
  have h2: "\<forall>r\<in>set [mkRow 3, mkRow 7, mkRow 5]. 0 \<le> epoch r" by (simp add: mkRow_def)
  show ?thesis by (rule latest_denominator_nonzero [OF h1 h2])
qed

section \<open>Properties of the quality classifier\<close>

text \<open>
  Claim C6: over the non-negative reals the three tier predicates form a partition:
  Excellent exactly below 0.05, Good exactly on [0.05, 0.20), Poor exactly from 0.20 on,
  so exactly one of them holds; 0.05 is Good and 0.20 is Poor.
\<close>

theorem tiers_partition_nonneg:
  assumes "0 \<le> e"
  shows "(isExcellent e \<longleftrightarrow> e \<in> {0..<0.05}) \<and> (isGood e \<longleftrightarrow> e \<in> {0.05..<0.20})
         \<and> (isPoor e \<longleftrightarrow> e \<in> {0.20..})
         \<and> length (filter (\<lambda>holds. holds) [isExcellent e, isGood e, isPoor e]) = 1
         \<and> isGood 0.05 \<and> \<not> isExcellent 0.05 \<and> isPoor 0.20 \<and> \<not> isGood 0.20"
  using assms by (auto simp: isExcellent_def isGood_def isPoor_def)

theorem tiers_partition_nonneg_witness:
  "(isExcellent 0.1 \<longleftrightarrow> (0.1::real) \<in> {0..<0.05}) \<and> (isGood 0.1 \<longleftrightarrow> (0.1::real) \<in> {0.05..<0.20})
   \<and> (isPoor 0.1 \<longleftrightarrow> (0.1::real) \<in> {0.20..})
   \<and> length (filter (\<lambda>holds. holds) [isExcellent 0.1, isGood 0.1, isPoor 0.1]) = 1
   \<and> isGood 0.05 \<and> \<not> isExcellent 0.05 \<and> isPoor 0.20 \<and> \<not> isGood 0.20"
proof -
  have h: "(0::real) \<le> 0.1" by simp
  show ?thesis by (rule tiers_partition_nonneg [OF h])
qed

text \<open>
  Claim C10: the tier predicates cover every real, not only the non-negative ones: for
  every value exactly one of the three holds, and every negative value is Excellent.
\<close>

theorem tiers_cover_all_reals:
  "length (filter (\<lambda>holds. holds) [isExcellent e, isGood e, isPoor e]) = 1
   \<and> (e < 0 \<longrightarrow> isExcellent e \<and> \<not> isGood e \<and> \<not> isPoor e)"
  by (auto simp: isExcellent_def isGood_def isPoor_def)

theorem tiers_cover_all_reals_witness:
  "length (filter (\<lambda>holds. holds) [isExcellent (- 0.3), isGood (- 0.3), isPoor (- 0.3)]) = 1
   \<and> isExcellent (- 0.3) \<and> \<not> isGood (- 0.3) \<and> \<not> isPoor (- 0.3)"
proof -
  have h: "(- 0.3 :: real) < 0" by simp
  show ?thesis using tiers_cover_all_reals [of "- 0.3"] h by simp
qed

section \<open>Properties of the sort\<close>

lemma set_insort_by: "set (insort_by cmp x ys) = insert x (set ys)"
  by (induction ys) auto

lemma set_sort_by: "set (sort_by cmp xs) = set xs"
  by (induction xs) (simp_all add: sort_by_def set_insort_by)

lemma length_insort_by: "length (insort_by cmp x ys) = Suc (length ys)"
  by (induction ys) auto

lemma length_sort_by: "length (sort_by cmp xs) = length xs"
  by (induction xs) (simp_all add: sort_by_def length_insort_by)

lemma insort_by_sorted:
  assumes "\<forall>a\<in>set (x # ys). \<exists>v. key a = Num v"
    and "sorted_wrt (\<lambda>a b. \<not> js_less (key b) (key a)) ys"
  shows "sorted_wrt (\<lambda>a b. \<not> js_less (key b) (key a))
           (insort_by (\<lambda>a b. js_sub (key a) (key b)) x ys)"
  using assms
proof (induction ys)
  case Nil
  then show ?case by simp
next
  case (Cons y ys)
  from Cons.prems(1) obtain vx vy where vx: "key x = Num vx" and vy: "key y = Num vy"
    by auto
  have num: "\<forall>a\<in>set ys. \<exists>v. key a = Num v" using Cons.prems(1) by simp
  show ?case
  proof (cases "vy < vx")
    case True
    then have pos: "js_pos (js_sub (key x) (key y))" by (simp add: js_sub_def vx vy)
    have "sorted_wrt (\<lambda>a b. \<not> js_less (key b) (key a))
            (insort_by (\<lambda>a b. js_sub (key a) (key b)) x ys)"
      using Cons.prems by (intro Cons.IH) simp_all
    moreover have "\<not> js_less (key z) (key y)"
      if "z \<in> set (insort_by (\<lambda>a b. js_sub (key a) (key b)) x ys)" for z
    proof -
      from that have "z = x \<or> z \<in> set ys" by (simp add: set_insort_by)
      then show ?thesis
      proof
        assume "z = x"
        with True show ?thesis by (simp add: vx vy)
      next
        assume "z \<in> set ys"
        with Cons.prems(2) show ?thesis by simp
      qed
    qed
    ultimately show ?thesis using pos by simp
  next
    case False
    then have npos: "\<not> js_pos (js_sub (key x) (key y))" by (simp add: js_sub_def vx vy)
    have "\<not> js_less (key z) (key x)" if "z \<in> set (y # ys)" for z
    proof -
      from that num vy obtain vz where vz: "key z = Num vz" by auto
      from that Cons.prems(2) have "z = y \<or> \<not> js_less (key z) (key y)" by auto
      then have "vy \<le> vz" using vy vz by auto
      with False show ?thesis by (simp add: vx vz)
    qed
    with Cons.prems(2) npos show ?thesis by simp
  qed
qed

lemma sort_by_sorted:
  assumes "\<forall>a\<in>set xs. \<exists>v. key a = Num v"
  shows "sorted_wrt (\<lambda>a b. \<not> js_less (key b) (key a))
           (sort_by (\<lambda>a b. js_sub (key a) (key b)) xs)"
  using assms
proof (induction xs)
  case Nil
  show ?case by (simp add: sort_by_def)
next
  case (Cons x xs)
  have s: "sort_by (\<lambda>a b. js_sub (key a) (key b)) (x # xs)
             = insort_by (\<lambda>a b. js_sub (key a) (key b)) x (sort_by (\<lambda>a b. js_sub (key a) (key b)) xs)"
    by (simp add: sort_by_def)
  have "\<forall>a\<in>set (x # sort_by (\<lambda>a b. js_sub (key a) (key b)) xs). \<exists>v. key a = Num v"
    using Cons.prems by (simp add: set_sort_by)
  moreover have "sorted_wrt (\<lambda>a b. \<not> js_less (key b) (key a))
                   (sort_by (\<lambda>a b. js_sub (key a) (key b)) xs)"
    using Cons.prems by (intro Cons.IH) simp
  ultimately show ?case unfolding s by (rule insort_by_sorted)
qed

section \<open>Properties of the rounding to double precision\<close>

lemma pow2_powr: "pow2 e = 2 powr (real_of_int e)"
  unfolding pow2_def by (rule powr_int [symmetric]) simp

lemma pow2_pos: "0 < pow2 e"
  by (simp add: pow2_powr)

lemma pow2_add: "pow2 (a + b) = pow2 a * pow2 b"
  by (simp add: pow2_powr powr_add)

lemma pow2_mono: "a \<le> b \<Longrightarrow> pow2 a \<le> pow2 b"
  by (simp add: pow2_powr)

lemma pow2_less_iff: "pow2 a < pow2 b \<longleftrightarrow> a < b"
  by (simp add: pow2_powr)

lemma pow2_nat: "pow2 (int n) = 2 ^ n"
  by (simp add: pow2_def)

lemma pow2_is_int: "0 \<le> e \<Longrightarrow> pow2 e = of_int (2 ^ nat e)"
  by (simp add: pow2_def)

lemma binary_exponent_range: "- 1074 \<le> binary_exponent a n \<and> binary_exponent a n \<le> int n - 1074"
  by (induction n) auto

lemma binary_exponent_lower:
  "- 1074 < binary_exponent a n \<Longrightarrow> pow2 (binary_exponent a n) \<le> a"
  by (induction n) (auto split: if_splits)

lemma binary_exponent_upper:
  "binary_exponent a n < int n - 1074 \<Longrightarrow> a < pow2 (binary_exponent a n + 1)"
proof (induction n)
  case 0
  then show ?case by simp
next
  case (Suc n)
  show ?case
  proof (cases "pow2 (int n - 1073) \<le> a")
    case True
    with Suc.prems show ?thesis by simp
  next
    case False
    then have e: "binary_exponent a (Suc n) = binary_exponent a n" by simp
    show ?thesis
    proof (cases "binary_exponent a n < int n - 1074")
      case True
      then show ?thesis using Suc.IH e by simp
    next
      case False
      with binary_exponent_range [of a n] have "binary_exponent a n = int n - 1074" by simp
      with \<open>\<not> pow2 (int n - 1073) \<le> a\<close> e show ?thesis by simp
    qed
  qed
qed

lemma round_half_even_int: "round_half_even (of_int n) = n"
  by (simp add: round_half_even_def)

text \<open>A number with at most 53 significant bits, within the exponent range, is a double.\<close>

lemma to_double_exact:
  assumes k: "\<bar>k\<bar> \<le> 2 ^ 53" and j: "- 1074 \<le> j" "j \<le> 970"
  shows "to_double (of_int k * pow2 j) = Num (of_int k * pow2 j)"
proof (cases "k = 0")
  case True
  have "binary_exponent 0 n = - 1074" for n
    by (induction n) (simp_all add: not_le pow2_pos)
  then show ?thesis using True by (simp add: to_double_def round_half_even_def)
next
  case False
  define x where "x = real_of_int k * pow2 j"
  define a where "a = \<bar>x\<bar>"
  define e where "e = binary_exponent a 2098"
  define f where "f = max (e - 52) (- 1074)"
  have a_eq: "a = real_of_int \<bar>k\<bar> * pow2 j"
    using pow2_pos [of j] by (simp add: a_def x_def abs_mult)
  from False have k1: "1 \<le> real_of_int \<bar>k\<bar>" by linarith
  have "real_of_int \<bar>k\<bar> \<le> real_of_int (2 ^ 53)" using k by (simp only: of_int_le_iff)
  then have k2: "real_of_int \<bar>k\<bar> \<le> 2 ^ 53" by simp
  have lo: "pow2 j \<le> a"
    using k1 pow2_pos [of j] by (simp add: a_eq)
  have hi: "a \<le> pow2 (j + 53)"
  proof -
    have "a \<le> 2 ^ 53 * pow2 j" using k2 pow2_pos [of j] by (simp add: a_eq)
    also have "\<dots> = pow2 (j + 53)" using pow2_nat [of 53] by (simp add: pow2_add)
    finally show ?thesis .
  qed
  have range: "- 1074 \<le> e" "e \<le> 1024"
    using binary_exponent_range [of a 2098] by (simp_all add: e_def)
  have e_ge: "j \<le> e"
  proof (rule ccontr)
    assume "\<not> j \<le> e"
    then have lt: "e + 1 \<le> j" by simp
    with j have "e < 1024" by simp
    then have "a < pow2 (e + 1)" using binary_exponent_upper [of a 2098] by (simp add: e_def)
    also have "\<dots> \<le> pow2 j" using lt by (rule pow2_mono)
    finally show False using lo by simp
  qed
  have e_le: "e \<le> j + 53"
  proof (rule ccontr)
    assume "\<not> e \<le> j + 53"
    then have gt: "j + 53 < e" by simp
    with j have "- 1074 < e" by simp
    then have "pow2 e \<le> a" using binary_exponent_lower [of a 2098] by (simp add: e_def)
    with hi have "pow2 e \<le> pow2 (j + 53)" by simp
    moreover from gt have "pow2 (j + 53) < pow2 e" by (simp add: pow2_less_iff)
    ultimately show False by simp
  qed
  have "\<exists>n. x / pow2 f = real_of_int n"
  proof (cases "e \<le> j + 52")
    case True
    with j have fj: "f \<le> j" by (simp add: f_def)
    have "pow2 j = pow2 (j - f) * pow2 f" using pow2_add [of "j - f" f] by simp
    then have "x / pow2 f = real_of_int k * pow2 (j - f)"
      using pow2_pos [of f] by (simp add: x_def)
    also have "\<dots> = real_of_int (k * 2 ^ nat (j - f))"
      using fj by (simp add: pow2_is_int)
    finally show ?thesis by blast
  next
    case False
    with e_le have e53: "e = j + 53" by simp
    with j have "- 1074 < e" by simp
    then have "pow2 e \<le> a" using binary_exponent_lower [of a 2098] by (simp add: e_def)
    then have "2 ^ 53 * pow2 j \<le> real_of_int \<bar>k\<bar> * pow2 j"
      using pow2_nat [of 53] by (simp add: e53 pow2_add a_eq mult.commute)
    then have "2 ^ 53 \<le> real_of_int \<bar>k\<bar>" using pow2_pos [of j] by simp
    with k2 have "real_of_int \<bar>k\<bar> = real_of_int (2 ^ 53)" by simp
    then have "\<bar>k\<bar> = 2 ^ 53" by (simp only: of_int_eq_iff)
    then have kk: "k = 2 ^ 53 \<or> k = - (2 ^ 53)" by linarith
    from e53 j have ff: "f = j + 1" by (simp add: f_def)
    have "pow2 f = 2 * pow2 j" using pow2_nat [of 1] by (simp add: ff pow2_add)
    then have half: "x / pow2 f = real_of_int k / 2" using pow2_pos [of j] by (simp add: x_def)
    have p: "real_of_int (2 ^ 53) / 2 = real_of_int (2 ^ 52)" by simp
    have m: "real_of_int (- (2 ^ 53)) / 2 = real_of_int (- (2 ^ 52))" by simp
    from kk show ?thesis
    proof
      assume "k = 2 ^ 53"
      with half p have "x / pow2 f = real_of_int (2 ^ 52)" by (simp only:)
      then show ?thesis by blast
    next
      assume "k = - (2 ^ 53)"
      with half m have "x / pow2 f = real_of_int (- (2 ^ 52))" by (simp only:)
      then show ?thesis by blast
    qed
  qed
  then obtain n where n: "x / pow2 f = real_of_int n" ..
  then have "x = real_of_int n * pow2 f" using pow2_pos [of f] by (simp add: field_simps)
  with n have r: "real_of_int (round_half_even (x / pow2 f)) * pow2 f = x"
    by (simp add: round_half_even_int)
  have "a < 2 ^ 1024"
  proof -
    have "pow2 (j + 53) \<le> pow2 1023" using j by (intro pow2_mono) simp
    also have "\<dots> = 2 ^ 1023" using pow2_nat [of 1023] by simp
    also have "\<dots> < (2::real) ^ 1024" by simp
    finally show ?thesis using hi by simp
  qed
  then have "\<not> 2 ^ 1024 \<le> \<bar>x\<bar>" by (simp add: a_def)
  then show ?thesis
    unfolding to_double_def Let_def
    using r by (simp add: x_def [symmetric] a_def [symmetric] e_def [symmetric] f_def [symmetric])
qed

lemma to_double_nat:
  assumes "n \<le> 2 ^ 53"
  shows "to_double (real n) = Num (real n)" and "to_double (- real n) = Num (- real n)"
proof -
  from assms have "int n \<le> int (2 ^ 53)" by (simp only: of_nat_le_iff)
  then have "int n \<le> 2 ^ 53" by simp
  then have b: "\<bar>int n\<bar> \<le> 2 ^ 53" "\<bar>- int n\<bar> \<le> 2 ^ 53" by simp_all
  have p: "pow2 0 = 1" by (simp add: pow2_def)
  show "to_double (real n) = Num (real n)"
    using to_double_exact [OF b(1), of 0] by (simp add: p)
  show "to_double (- real n) = Num (- real n)"
    using to_double_exact [OF b(2), of 0] by (simp add: p)
qed

lemma to_double_numeral:
  "(numeral w :: nat) \<le> 2 ^ 53 \<Longrightarrow> to_double (numeral w) = Num (numeral w)"
  "(numeral w :: nat) \<le> 2 ^ 53 \<Longrightarrow> to_double (- numeral w) = Num (- numeral w)"
  "to_double 0 = Num 0"
  "to_double 1 = Num 1"
  using to_double_nat [of "numeral w"] to_double_nat [of 0] to_double_nat [of 1] by simp_all

lemma to_double_minus_half: "to_double (- (1 / 2)) = Num (- (1 / 2))"
  using to_double_exact [of "- 1" "- 1"] by (simp add: pow2_def)

lemma binary_exponent_bracket:
  assumes "pow2 e \<le> a" and "a < pow2 (e + 1)" and "- 1074 < e" and "e \<le> int n - 1074"
  shows "binary_exponent a n = e"
proof (rule ccontr)
  assume ne: "binary_exponent a n \<noteq> e"
  show False
  proof (cases "binary_exponent a n < e")
    case True
    with assms(4) have "binary_exponent a n < int n - 1074" by simp
    then have "a < pow2 (binary_exponent a n + 1)" by (rule binary_exponent_upper)
    also have "\<dots> \<le> pow2 e" using True by (intro pow2_mono) simp
    finally show False using assms(1) by simp
  next
    case False
    with ne have gt: "e + 1 \<le> binary_exponent a n" by simp
    with assms(3) have "- 1074 < binary_exponent a n" by simp
    then have "pow2 (binary_exponent a n) \<le> a" by (rule binary_exponent_lower)
    moreover have "pow2 (e + 1) \<le> pow2 (binary_exponent a n)" using gt by (rule pow2_mono)
    ultimately show False using assms(2) by simp
  qed
qed

text \<open>
  Above \<open>2 ^ 53\<close> not every natural number is a double: \<open>2 ^ 53 + 1\<close> lies halfway
  between two doubles and is read as the even one, \<open>2 ^ 53\<close>.
\<close>

lemma to_double_rounds_above_2_53: "to_double 9007199254740993 = Num 9007199254740992"
proof -
  have p53: "pow2 53 = 9007199254740992" and p54: "pow2 54 = 18014398509481984"
    and p1: "pow2 1 = 2"
    by (simp_all add: pow2_def)
  have e: "binary_exponent 9007199254740993 2098 = 53"
    by (rule binary_exponent_bracket) (simp_all add: p53 p54)
  have r: "round_half_even (9007199254740993 / 2) = 4503599627370496"
    by (simp add: round_half_even_def)
  show ?thesis
    unfolding to_double_def Let_def by (simp add: e p1 r)
qed

lemma round_half_even_ge_floor: "\<lfloor>q\<rfloor> \<le> round_half_even q"
  by (simp add: round_half_even_def Let_def)

text \<open>From \<open>2 ^ 1024\<close> on, a number is read as \<^verbatim>\<open>Infinity\<close>.\<close>

lemma to_double_overflow:
  assumes "2 ^ 1024 \<le> x"
  shows "to_double x = PosInf"
proof -
  have pos: "0 < x" using assms by (rule less_le_trans [rotated]) simp
  have p: "pow2 1024 = 2 ^ 1024" and q: "pow2 972 = 2 ^ 972" by (simp_all add: pow2_def)
  have e: "binary_exponent \<bar>x\<bar> 2098 = 1024"
  proof (rule ccontr)
    assume "binary_exponent \<bar>x\<bar> 2098 \<noteq> 1024"
    with binary_exponent_range [of "\<bar>x\<bar>" 2098] have lt: "binary_exponent \<bar>x\<bar> 2098 < 1024"
      by simp
    then have "\<bar>x\<bar> < pow2 (binary_exponent \<bar>x\<bar> 2098 + 1)"
      using binary_exponent_upper [of "\<bar>x\<bar>" 2098] by simp
    also have "\<dots> \<le> pow2 1024" using lt by (intro pow2_mono) simp
    finally show False using assms pos by (simp add: p)
  qed
  define u :: real where "u = 2 ^ 972"
  define q where "q = x / u"
  have u: "0 < u" by (simp add: u_def)
  have split: "(2::real) ^ 1024 = 2 ^ 52 * u" unfolding u_def by (simp flip: power_add)
  have "2 ^ 52 * u \<le> x" using assms split by simp
  then have "2 ^ 52 \<le> q" using u by (simp add: q_def le_divide_eq)
  then have "real_of_int (2 ^ 52) \<le> q" by simp
  then have "2 ^ 52 \<le> \<lfloor>q\<rfloor>" by (simp only: le_floor_iff)
  then have "2 ^ 52 \<le> round_half_even q" using round_half_even_ge_floor by (rule order_trans)
  then have "real_of_int (2 ^ 52) \<le> real_of_int (round_half_even q)" by (simp only: of_int_le_iff)
  then have "2 ^ 52 \<le> real_of_int (round_half_even q)" by simp
  then have "2 ^ 52 * u \<le> real_of_int (round_half_even q) * u" using u by simp
  then have "2 ^ 1024 \<le> real_of_int (round_half_even q) * u" using split by simp
  also have "\<dots> \<le> \<bar>real_of_int (round_half_even q) * u\<bar>" by simp
  finally have big: "2 ^ 1024 \<le> \<bar>real_of_int (round_half_even (x / u)) * u\<bar>"
    by (simp only: q_def)
  have m: "max (1024 - 52) (- 1074) = (972::int)" by simp
  have "to_double x =
          (if 2 ^ 1024 \<le> \<bar>real_of_int (round_half_even (x / u)) * u\<bar>
           then (if 0 < x then PosInf else NegInf)
           else Num (real_of_int (round_half_even (x / u)) * u))"
    unfolding to_double_def Let_def e m q u_def ..
  with big pos show ?thesis by (simp only: if_True)
qed

lemma parseFloat_rounds: "parseFloat ''9007199254740993'' = Num 9007199254740992"
proof -
  have "parseFloat ''9007199254740993'' = to_double 9007199254740993"
    by (simp add: parseFloat_def Let_def white_space_def is_digit_def dec_val_def digit_val_def
          exponent_part_def)
  then show ?thesis by (simp only: to_double_rounds_above_2_53)
qed

lemma parseFloat_overflow: "parseFloat ''1e400'' = PosInf"
proof -
  have "parseFloat ''1e400'' = to_double (10 ^ 400)"
    by (simp add: parseFloat_def Let_def white_space_def is_digit_def dec_val_def digit_val_def
          exponent_part_def)
  moreover have "(2::real) ^ 1024 \<le> 10 ^ 400" by simp
  ultimately show ?thesis by (simp only: to_double_overflow)
qed

section \<open>Properties of the metric identifier parser\<close>

lemmas parse_eval = parseBand_def bandMatchAt_def is_digit_def line_terminator_def str_split_def
  strip_underscores_def parseInt_def parseFloat_def Let_def white_space_def dec_val_def
  digit_val_def exponent_part_def to_double_numeral

text \<open>A negative relative error in the feed is ingested as it is and counts as Excellent.\<close>

lemma negative_error_is_ingested:
  "numberField ''-0.5'' = Num (- 0.5) \<and> numberField ''n/a'' = Num 0 \<and> isExcellent (- 0.5)"
  by (simp add: numberField_def parse_eval isExcellent_def to_double_minus_half)

lemma bandMatch_without_underscore:
  "CHR ''_'' \<notin> set s \<Longrightarrow> bandMatch s = None"
proof (induction s)
  case Nil
  show ?case by simp
next
  case (Cons c cs)
  have "\<not> prefix ''income_band_'' (c # cs)"
  proof
    assume "prefix ''income_band_'' (c # cs)"
    then obtain r where "c # cs = ''income_band_'' @ r" by (auto simp: prefix_def)
    then have "CHR ''_'' \<in> set (c # cs)" by simp
    with Cons.prems show False by simp
  qed
  then have "bandMatchAt (c # cs) = None" unfolding bandMatchAt_def by (simp only: if_False)
  moreover have "bandMatch cs = None" using Cons by simp
  ultimately show ?case by simp
qed

text \<open>
  Where the band pattern is absent the parser returns \<^verbatim>\<open>null\<close>: so for the empty
  string and for every string without an underscore.
\<close>

lemma parseBand_without_pattern:
  "bandMatch s = None \<Longrightarrow> parseBand s = Inr None"
  "parseBand [] = Inr None"
  "CHR ''_'' \<notin> set s \<Longrightarrow> parseBand s = Inr None"
  by (simp_all add: parseBand_def bandMatch_without_underscore)

lemma parseBand_no_to: "parseBand ''hmrc/pension_income_band_3_10_000'' = Inl TypeError"
  by (simp add: parse_eval)

text \<open>
  Claim C2 (the parser returns a facet for every string and never throws) fails on the
  code: a metric that matches the band pattern but whose range has no \<^verbatim>\<open>_to_\<close> makes
  \<open>parseBand\<close> throw a TypeError, and with it the band series of its source.
\<close>

theorem parseBand_throws_without_to:
  "parseBand ''hmrc/pension_income_band_3_10_000'' = Inl TypeError
   \<and> bandsData [bandRow ''hmrc/pension_income_band_3_10_000''] ''pension'' amount = Inl TypeError"
proof -
  have l: "latestData [bandRow ''hmrc/pension_income_band_3_10_000'']
           = [bandRow ''hmrc/pension_income_band_3_10_000'']"
    by (rule latestData_single_epoch [where e = 5]) (simp_all add: bandRow_def)
  have m: "metric (bandRow ''hmrc/pension_income_band_3_10_000'') = ''hmrc/pension_income_band_3_10_000''"
    by (simp add: bandRow_def)
  have "bandsData [bandRow ''hmrc/pension_income_band_3_10_000''] ''pension'' amount = Inl TypeError"
    unfolding bandsData_def l by (simp add: bandPrefix_def m parseBand_no_to)
  with parseBand_no_to show ?thesis by simp
qed

section \<open>Properties of the band aggregator\<close>

lemma pushBands_no_55:
  assumes "pushBands acc items = Inr bs" and "\<forall>d\<in>set acc. bandNumber (band d) \<noteq> Num 55"
  shows "\<forall>d\<in>set bs. bandNumber (band d) \<noteq> Num 55"
  using assms
proof (induction items arbitrary: acc)
  case Nil
  then show ?case by simp
next
  case (Cons item items)
  show ?case
  proof (cases "parseBand (metric item)")
    case (Inl e)
    with Cons.prems(1) show ?thesis by simp
  next
    case (Inr r)
    show ?thesis
    proof (cases r)
      case None
      with Inr Cons.prems have "pushBands acc items = Inr bs" by simp
      then show ?thesis using Cons.prems(2) by (rule Cons.IH)
    next
      case (Some b)
      show ?thesis
      proof (cases "bandNumber b = Num 55")
        case True
        with Inr Some Cons.prems have "pushBands acc items = Inr bs" by simp
        then show ?thesis using Cons.prems(2) by (rule Cons.IH)
      next
        case False
        let ?d = "\<lparr> band = b, band_estimate = estimate item, band_target = target item,
                    band_error = error item, band_rel_abs_error = rel_abs_error item \<rparr>"
        from Inr Some False Cons.prems(1) have "pushBands (acc @ [?d]) items = Inr bs" by simp
        moreover have "\<forall>d\<in>set (acc @ [?d]). bandNumber (band d) \<noteq> Num 55"
          using Cons.prems(2) False by simp
        ultimately show ?thesis by (rule Cons.IH)
      qed
    qed
  qed
qed

text \<open>Whatever the table, a returned band series has no band 55.\<close>

lemma bandsData_no_55:
  assumes "bandsData data selectedSource metricType = Inr bs"
  shows "\<forall>d\<in>set bs. bandNumber (band d) \<noteq> Num 55"
proof (cases "selectedSource = []")
  case True
  with assms show ?thesis by (simp add: bandsData_def)
next
  case False
  let ?items = "filter (\<lambda>item. prefix (bandPrefix selectedSource metricType) (metric item))
                  (latestData data)"
  from assms False obtain bands where p: "pushBands [] ?items = Inr bands"
    and bs: "bs = sort_by (\<lambda>a b. js_sub (lowerBound (band a)) (lowerBound (band b))) bands"
    by (auto simp: bandsData_def Let_def split: sum.splits)
  from pushBands_no_55 [OF p] have "\<forall>d\<in>set bands. bandNumber (band d) \<noteq> Num 55" by simp
  then show ?thesis by (simp add: bs set_sort_by)
qed

text \<open>
  When every lower bound of a returned series is a number, no band comes before a band
  with a smaller lower bound.
\<close>

lemma bandsData_sorted_when_numeric:
  assumes "bandsData data selectedSource metricType = Inr bs"
    and "\<forall>d\<in>set bs. \<exists>v. lowerBound (band d) = Num v"
  shows "sorted_wrt (\<lambda>a b. \<not> js_less (lowerBound (band b)) (lowerBound (band a))) bs"
proof (cases "selectedSource = []")
  case True
  with assms(1) show ?thesis by (simp add: bandsData_def)
next
  case False
  let ?items = "filter (\<lambda>item. prefix (bandPrefix selectedSource metricType) (metric item))
                  (latestData data)"
  from assms(1) False obtain bands where
    bs: "bs = sort_by (\<lambda>a b. js_sub (lowerBound (band a)) (lowerBound (band b))) bands"
    by (auto simp: bandsData_def Let_def split: sum.splits)
  from assms(2) have "\<forall>d\<in>set bands. \<exists>v. lowerBound (band d) = Num v"
    by (simp add: bs set_sort_by)
  then show ?thesis
    unfolding bs by (rule sort_by_sorted [where key = "\<lambda>d. lowerBound (band d)"])
qed

lemma parseBand_band1:
  "parseBand ''hmrc/pension_income_band_1_5_000_to_10_000'' =
     Inr (Some \<lparr> bandNumber = Num 1, range_str = ''5_000_to_10_000'', lowerBound = Num 5000,
                 upperBound = Some (Num 10000) \<rparr>)"
  by (simp add: parse_eval)

lemma parseBand_band2:
  "parseBand ''hmrc/pension_income_band_2_unknown_to_inf'' =
     Inr (Some \<lparr> bandNumber = Num 2, range_str = ''unknown_to_inf'', lowerBound = NaN,
                 upperBound = None \<rparr>)"
  by (simp add: parse_eval)

lemma parseBand_band3:
  "parseBand ''hmrc/pension_income_band_3_0_to_5_000'' =
     Inr (Some \<lparr> bandNumber = Num 3, range_str = ''0_to_5_000'', lowerBound = Num 0,
                 upperBound = Some (Num 5000) \<rparr>)"
  by (simp add: parse_eval)

text \<open>
  Claim C7 (the band series is sorted ascending by lower bound and has no band 55) fails
  on the code when a lower bound does not parse: the comparator returns \<^verbatim>\<open>NaN\<close> against
  such a band, nothing moves across it, and the series of the three bands below keeps the
  lower bound 5000 before the lower bound 0.
\<close>

theorem bandsData_unsorted_on_NaN:
  "map_sum id (map (\<lambda>d. (bandNumber (band d), lowerBound (band d))))
     (bandsData malformedBands ''pension'' amount)
   = Inr [(Num 1, Num 5000), (Num 2, NaN), (Num 3, Num 0)]"
proof -
  have l: "latestData malformedBands = malformedBands"
    by (rule latestData_single_epoch [where e = 5]) (simp_all add: malformedBands_def bandRow_def)
  have m: "\<And>s. metric (bandRow s) = s" by (simp add: bandRow_def)
  show ?thesis
    unfolding bandsData_def l
    by (simp add: malformedBands_def bandPrefix_def m parseBand_band1 parseBand_band2
          parseBand_band3 sort_by_def js_sub_def)
qed

section \<open>Properties of the geographic aggregator\<close>

lemma foldl_add_sum_list: "foldl (\<lambda>sum p. sum + f p) a xs = a + sum_list (map f xs)"
  by (induction xs arbitrary: a) (simp_all add: add.assoc)

lemma bandPoint_found:
  assumes "0 < point_target (bandPoint cd b)"
  shows "\<exists>item\<in>set cd. metric item = cat_metric b \<and> target item = point_target (bandPoint cd b)"
proof (cases "find (\<lambda>d. metric d = cat_metric b) cd")
  case None
  with assms show ?thesis by (simp add: bandPoint_def)
next
  case (Some i)
  then have "i \<in> set cd \<and> metric i = cat_metric b"
    by (auto simp: find_Some_iff in_set_conv_nth)
  moreover from Some have "point_target (bandPoint cd b) = target i"
    by (simp add: bandPoint_def)
  ultimately show ?thesis by auto
qed

lemma category_bandPoint: "category (bandPoint cd b) = cat_label b"
  by (simp add: bandPoint_def Let_def)

lemma dataPoints_survive:
  assumes "p \<in> set (dataPoints (getLocalAreaData latest analysisType c))"
  shows "0 < point_target p \<and>
         (\<exists>item\<in>set latest. \<exists>b\<in>set (if analysisType = age then ageBands else employmentBands).
            name item = c \<and> metric item = cat_metric b \<and> category p = cat_label b
            \<and> target item = point_target p)"
proof -
  let ?cd = "filter (\<lambda>item. name item = c) latest"
  let ?bands = "if analysisType = age then ageBands else employmentBands"
  from assms obtain b where b: "b \<in> set ?bands" "p = bandPoint ?cd b" and pos: "0 < point_target p"
    by (auto simp: getLocalAreaData_def Let_def)
  from pos b(2) bandPoint_found [of ?cd b]
  obtain item where item: "item \<in> set ?cd" "metric item = cat_metric b"
    "target item = point_target p"
    by auto
  from item(1) have i1: "item \<in> set latest" and i2: "name item = c" by simp_all
  have "name item = c \<and> metric item = cat_metric b \<and> category p = cat_label b
        \<and> target item = point_target p"
    using i2 item(2,3) b(2) by (simp add: category_bandPoint)
  with i1 b(1) have "\<exists>item\<in>set latest. \<exists>b\<in>set ?bands.
            name item = c \<and> metric item = cat_metric b \<and> category p = cat_label b
            \<and> target item = point_target p"
    by blast
  with pos show ?thesis by simp
qed

lemma constituency_getLocalAreaData [simp]: "constituency (getLocalAreaData latest t c) = c"
  by (simp add: getLocalAreaData_def Let_def)

lemma sortedAreas_members:
  assumes "a \<in> set (sortedAreas data analysisType)"
  shows "0 < length (dataPoints a) \<and>
         a = getLocalAreaData (latestData data) analysisType (constituency a)"
  using assms by (auto simp: sortedAreas_def Let_def set_sort_by)

lemma best_subset: "set (best (overviewData data t)) \<subseteq> set (sortedAreas data t)"
  by (auto simp: overviewData_def Let_def dest: in_set_takeD)

lemma worst_subset: "set (worst (overviewData data t)) \<subseteq> set (sortedAreas data t)"
  by (auto simp: overviewData_def Let_def dest: in_set_dropD)

lemma sortedAreas_points:
  assumes mem: "a \<in> set (sortedAreas data analysisType)"
  shows "0 < length (dataPoints a) \<and>
      (\<forall>p \<in> set (dataPoints a).
         0 < point_target p \<and>
         (\<exists>item \<in> set (latestData data).
            \<exists>b \<in> set (if analysisType = age then ageBands else employmentBands).
              name item = constituency a \<and> metric item = cat_metric b
              \<and> category p = cat_label b \<and> target item = point_target p))"
proof -
  from sortedAreas_members [OF mem]
  have len: "0 < length (dataPoints a)"
    and a: "a = getLocalAreaData (latestData data) analysisType (constituency a)" by simp_all
  have "\<forall>p \<in> set (dataPoints (getLocalAreaData (latestData data) analysisType (constituency a))).
         0 < point_target p \<and>
         (\<exists>item \<in> set (latestData data).
            \<exists>b \<in> set (if analysisType = age then ageBands else employmentBands).
              name item = constituency a \<and> metric item = cat_metric b
              \<and> category p = cat_label b \<and> target item = point_target p)"
    using dataPoints_survive by blast
  with a have "\<forall>p \<in> set (dataPoints a).
         0 < point_target p \<and>
         (\<exists>item \<in> set (latestData data).
            \<exists>b \<in> set (if analysisType = age then ageBands else employmentBands).
              name item = constituency a \<and> metric item = cat_metric b
              \<and> category p = cat_label b \<and> target item = point_target p)"
    by simp
  with len show ?thesis by simp
qed

text \<open>
  Claim C8: every area in the ranked output (best performers, worst performers, and the
  areas the overall average is taken over) has at least one surviving point, and every
  surviving point has a strictly positive target taken from a record of that area whose
  metric is exactly the metric of a band of the catalogue.
\<close>

theorem ranked_areas_have_points:
  "(\<forall>a \<in> set (best (overviewData data analysisType)) \<union> set (worst (overviewData data analysisType))
          \<union> set (sortedAreas data analysisType).
      0 < length (dataPoints a) \<and>
      (\<forall>p \<in> set (dataPoints a).
         0 < point_target p \<and>
         (\<exists>item \<in> set (latestData data).
            \<exists>b \<in> set (if analysisType = age then ageBands else employmentBands).
              name item = constituency a \<and> metric item = cat_metric b
              \<and> category p = cat_label b \<and> target item = point_target p)))
   \<and> average (overviewData data analysisType) =
       js_div_len (foldl (\<lambda>sum area. js_add sum (avgRelError area)) (Num 0)
                     (sortedAreas data analysisType))
         (length (sortedAreas data analysisType))"
proof (rule conjI)
  show "average (overviewData data analysisType) =
       js_div_len (foldl (\<lambda>sum area. js_add sum (avgRelError area)) (Num 0)
                     (sortedAreas data analysisType))
         (length (sortedAreas data analysisType))"
    by (simp add: overviewData_def Let_def)
next
  show "\<forall>a \<in> set (best (overviewData data analysisType)) \<union> set (worst (overviewData data analysisType))
          \<union> set (sortedAreas data analysisType).
      0 < length (dataPoints a) \<and>
      (\<forall>p \<in> set (dataPoints a).
         0 < point_target p \<and>
         (\<exists>item \<in> set (latestData data).
            \<exists>b \<in> set (if analysisType = age then ageBands else employmentBands).
              name item = constituency a \<and> metric item = cat_metric b
              \<and> category p = cat_label b \<and> target item = point_target p))"
  proof
    fix a
    assume "a \<in> set (best (overviewData data analysisType)) \<union> set (worst (overviewData data analysisType))
          \<union> set (sortedAreas data analysisType)"
    with best_subset worst_subset have "a \<in> set (sortedAreas data analysisType)" by blast
    then show "0 < length (dataPoints a) \<and>
      (\<forall>p \<in> set (dataPoints a).
         0 < point_target p \<and>
         (\<exists>item \<in> set (latestData data).
            \<exists>b \<in> set (if analysisType = age then ageBands else employmentBands).
              name item = constituency a \<and> metric item = cat_metric b
              \<and> category p = cat_label b \<and> target item = point_target p))"
      by (rule sortedAreas_points)
  qed
qed

theorem ranked_areas_have_points_witness:
  "getLocalAreaData (latestData exampleAreas) age ''A'' \<in> set (best (overviewData exampleAreas age))
   \<and> 0 < length (dataPoints (getLocalAreaData (latestData exampleAreas) age ''A''))"
proof -
  have mem: "getLocalAreaData (latestData exampleAreas) age ''A''
             \<in> set (best (overviewData exampleAreas age))"
    by code_simp
  with ranked_areas_have_points [of exampleAreas age] show ?thesis by blast
qed

lemma area_mean_cases:
  "avgRelError (getLocalAreaData latest t c) =
     (if dataPoints (getLocalAreaData latest t c) = [] then Num 0
      else Num (sum_list (map point_rel_abs_error (dataPoints (getLocalAreaData latest t c)))
                / real (length (dataPoints (getLocalAreaData latest t c)))))"
proof -
  define pts where "pts = dataPoints (getLocalAreaData latest t c)"
  have a: "avgRelError (getLocalAreaData latest t c) =
             (if length pts > 0
              then js_div_len (Num (foldl (\<lambda>sum point. sum + point_rel_abs_error point) 0 pts))
                     (length pts)
              else Num 0)"
    unfolding pts_def getLocalAreaData_def Let_def by simp
  show ?thesis
    unfolding a pts_def [symmetric] by (cases pts) (simp_all add: foldl_add_sum_list)
qed

text \<open>
  Claim C3, as amended: the summary of an empty table is reported as absent, not
  computed; the per-area mean of the geographic aggregator is never \<^verbatim>\<open>NaN\<close>: it is the
  sum of the surviving points' relative errors divided by their number when there is a
  point, and it is 0 when there is none.
\<close>

theorem area_mean_zero_or_number:
  "MetricsSummary [] = None
   \<and> avgRelError (getLocalAreaData latest t c) \<noteq> NaN
   \<and> (dataPoints (getLocalAreaData latest t c) = [] \<longrightarrow>
        avgRelError (getLocalAreaData latest t c) = Num 0)
   \<and> (dataPoints (getLocalAreaData latest t c) \<noteq> [] \<longrightarrow>
        avgRelError (getLocalAreaData latest t c) =
          Num (sum_list (map point_rel_abs_error (dataPoints (getLocalAreaData latest t c)))
               / real (length (dataPoints (getLocalAreaData latest t c)))))"
proof -
  have "MetricsSummary [] = None" by (simp add: MetricsSummary_def)
  moreover have "avgRelError (getLocalAreaData latest t c) \<noteq> NaN"
    by (simp add: area_mean_cases)
  ultimately show ?thesis by (simp add: area_mean_cases)
qed

theorem area_mean_zero_or_number_witness:
  "avgRelError (getLocalAreaData [areaRow ''B'' ''hmrc/other'' 7 9] age ''B'') = Num 0
   \<and> avgRelError (getLocalAreaData exampleAreas age ''A'') = Num 0.2"
proof -
  have e: "dataPoints (getLocalAreaData [areaRow ''B'' ''hmrc/other'' 7 9] age ''B'') = []"
    by code_simp
  have n: "dataPoints (getLocalAreaData exampleAreas age ''A'') \<noteq> []"
    by code_simp
  have v: "sum_list (map point_rel_abs_error (dataPoints (getLocalAreaData exampleAreas age ''A'')))
               / real (length (dataPoints (getLocalAreaData exampleAreas age ''A''))) = 0.2"
    by code_simp
  from area_mean_zero_or_number [of "[areaRow ''B'' ''hmrc/other'' 7 9]" age "''B''"] e
  have "avgRelError (getLocalAreaData [areaRow ''B'' ''hmrc/other'' 7 9] age ''B'') = Num 0"
    by blast
  moreover from area_mean_zero_or_number [of exampleAreas age "''A''"] n v
  have "avgRelError (getLocalAreaData exampleAreas age ''A'') = Num 0.2"
    by simp
  ultimately show ?thesis by simp
qed

text \<open>
  The claim as stated (a zero-point area is never assigned 0 as its mean) fails: an area
  whose only record has target 0 has no surviving point and gets the mean 0.
\<close>

theorem zero_point_area_mean_is_zero:
  "dataPoints (getLocalAreaData [areaRow ''B'' ''age/0_10'' 0 9] age ''B'') = []
   \<and> avgRelError (getLocalAreaData [areaRow ''B'' ''age/0_10'' 0 9] age ''B'') = Num 0"
  by code_simp

text \<open>The overall average of a table in which no area has a point is \<^verbatim>\<open>0 / 0\<close>.\<close>

lemma overview_average_NaN_example:
  "overviewData [areaRow ''B'' ''age/0_10'' 0 9] age = \<lparr> best = [], worst = [], average = NaN \<rparr>"
  by code_simp


section \<open>Round trip of banded metrics\<close>

subsection \<open>Numerals\<close>
















subsection \<open>Splitting and matching\<close>















subsection \<open>Reading a metric in the known format\<close>
























end
